theory Spec2Isabelle
  imports Main "HOL-Library.Char_ord" "HOL-Library.List_Lexorder"
begin

section \<open>Strings, errors and panics\<close>

text \<open>
  Go strings are byte sequences, here \<open>string\<close>. An \<open>error\<close> made by \<open>fmt.Errorf\<close> is
  its message. A run-time panic is a value of its own, so that a call that panics is
  told apart from a call that returns an error.
\<close>

type_synonym error = string

datatype panic = IndexOutOfRange | SliceOutOfRange | NilDereference | TypeAssertion

definition TAB :: char where
  "TAB = CHR 0x09"

definition NL :: char where
  "NL = CHR 0x0A"

definition CR :: char where
  "CR = CHR 0x0D"

text \<open>
  \<open>strings.ToLower\<close> maps runes through the Unicode tables, which are not reproduced
  here: every operation that folds case takes the function as its first argument
  \<open>ToLower\<close>, and the theorems hold for any such function. \<open>asciiLower\<close> is what
  \<open>strings.ToLower\<close> computes on ASCII input and is used to run the model.
\<close>

definition asciiLowerChar :: "char \<Rightarrow> char" where
  "asciiLowerChar c =
     (case map_of (zip ''ABCDEFGHIJKLMNOPQRSTUVWXYZ'' ''abcdefghijklmnopqrstuvwxyz'') c of
        Some d \<Rightarrow> d
      | None \<Rightarrow> c)"

definition asciiLower :: "string \<Rightarrow> string" where
  "asciiLower s = map asciiLowerChar s"

text \<open>\<open>strings.Split(s, sep)\<close> for a separator of one byte: never an empty result.\<close>

fun Split :: "string \<Rightarrow> char \<Rightarrow> string list" where
  "Split [] sep = [[]]"
| "Split (c # cs) sep =
     (if c = sep then [] # Split cs sep
      else (case Split cs sep of [] \<Rightarrow> [[c]] | p # ps \<Rightarrow> (c # p) # ps))"

text \<open>\<open>strings.Join(elems, sep)\<close>.\<close>

fun Join :: "string list \<Rightarrow> string \<Rightarrow> string" where
  "Join [] sep = []"
| "Join [x] sep = x"
| "Join (x # y # ys) sep = x @ sep @ Join (y # ys) sep"

text \<open>\<open>fmt.Sprintf("%x", b)\<close> on a byte array: two lower-case hex digits per byte.\<close>

definition hexdigit :: "nat \<Rightarrow> char" where
  "hexdigit n = ''0123456789abcdef'' ! (n mod 16)"

definition hex :: "string \<Rightarrow> string" where
  "hex bs = concat (map (\<lambda>b. [hexdigit ((of_char b :: nat) div 16), hexdigit (of_char b)]) bs)"

subsection \<open>bufio.Scanner over a file\<close>

text \<open>
  A \<open>bufio.Scanner\<close> with the default split function \<open>ScanLines\<close> delivers the lines
  of its input: the text between newlines, a last unterminated line when it is not
  empty, each without one trailing carriage return. Its buffer holds at most
  \<open>MaxScanTokenSize\<close> bytes: at a line that does not fit, \<open>Scan\<close> returns false and
  the loop over the file ends there.
\<close>

definition MaxScanTokenSize :: nat where
  "MaxScanTokenSize = 64 * 1024"

definition dropCR :: "string \<Rightarrow> string" where
  "dropCR data = (if data \<noteq> [] \<and> last data = CR then butlast data else data)"

definition rawLines :: "string \<Rightarrow> string list" where
  "rawLines data = (let ps = Split data NL in if last ps = [] then butlast ps else ps)"

definition scanLines :: "string \<Rightarrow> string list" where
  "scanLines data = map dropCR (takeWhile (\<lambda>ln. length ln < MaxScanTokenSize) (rawLines data))"

section \<open>The token store (server\_tokens.go)\<close>

text \<open>
  A \<open>Statistic\<close> as \<open>AddToken\<close> makes it: the service and the instance; its
  counters, address and time have their zero values and are left out.
\<close>

record Statistic =
  Service :: string
  Instance :: string

text \<open>
  The server's state as the token store uses it. The struct is declared in none of the
  source files: its fields are those that the methods use, the two maps, and the content
  of the file at \<open>tokenPath\<close> (\<open>None\<close> while the file does not exist). The mutex
  is not modelled: every operation runs alone.
\<close>

record logServer =
  tokens :: "string \<rightharpoonup> string"
  stats :: "string \<rightharpoonup> Statistic"
  tokenFile :: "string option"

text \<open>
  What the operating system does to one call: nothing, or the failure of one step with
  the message of its error. A failed write has put \<open>n\<close> bytes into the file. A fault
  at a step that a call does not take leaves the call undisturbed. Reading an open file
  delivers its content.
\<close>

datatype fault =
    NoFault
  | ExistsFault string
  | OpenFault string
  | WriteFault nat string
  | CloseFault string

text \<open>
  Modelled from the spec: \<open>getCleanKey\<close> is called by the token store and defined in
  none of the source files. The spec has the identity key case-folded to lowercase and
  joined with a separator into one composite key \<open>service/instance\<close>; \<open>Authorize\<close>
  builds the same key in line.
\<close>

definition getCleanKey :: "(string \<Rightarrow> string) \<Rightarrow> string \<Rightarrow> string \<Rightarrow> string" where
  "getCleanKey ToLower service instance = ToLower service @ ''/'' @ ToLower instance"

text \<open>The bytes of the file: a file that was just created is empty.\<close>

definition fileContent :: "string option \<Rightarrow> string" where
  "fileContent file = (case file of None \<Rightarrow> [] | Some c \<Rightarrow> c)"

text \<open>
  Modelled from the spec: \<open>fileExists\<close> is called by the token store and defined in
  none of the source files. The spec has the store persist to one flat file; the call
  sites say that the helper makes sure that the file exists, creating it, and returns
  an error when it cannot.
\<close>

definition fileExists :: "fault \<Rightarrow> string option \<Rightarrow> error option \<times> string option" where
  "fileExists flt file =
     (case flt of
        ExistsFault msg \<Rightarrow> (Some msg, file)
      | _ \<Rightarrow> (None, Some (fileContent file)))"

definition writeTokenToFile ::
  "logServer \<Rightarrow> string \<Rightarrow> string \<Rightarrow> fault \<Rightarrow> error option \<times> logServer" where
  "writeTokenToFile l key token flt =
     (case fileExists flt (tokenFile l) of
        (Some err, file) \<Rightarrow>
          (Some (''writeTokenToFile: could not create tokens.db: '' @ err), l)
      | (None, file) \<Rightarrow>
          (let content = fileContent file;
               line = key @ [TAB] @ token @ [NL]
           in case flt of
                OpenFault msg \<Rightarrow>
                  (Some (''writeTokenToFile: could not open file: '' @ msg), l\<lparr>tokenFile := file\<rparr>)
              | WriteFault n msg \<Rightarrow>
                  (Some (''writeTokenToFile: could not write token to file: '' @ msg),
                   l\<lparr>tokenFile := Some (content @ take n line)\<rparr>)
              | CloseFault msg \<Rightarrow> (Some msg, l\<lparr>tokenFile := Some (content @ line)\<rparr>)
              | _ \<Rightarrow> (None, l\<lparr>tokenFile := Some (content @ line)\<rparr>)))"

text \<open>
  \<open>AddToken\<close>. \<open>rnd\<close> is what drawing the token gives: the error of \<open>rand.Read\<close>, or
  the bytes of \<open>sha256.Sum256(tokenBytes)\<close>.
\<close>

definition AddToken ::
  "(string \<Rightarrow> string) \<Rightarrow> logServer \<Rightarrow> string \<Rightarrow> string \<Rightarrow> error + string \<Rightarrow> fault
     \<Rightarrow> (error + string) \<times> logServer" where
  "AddToken ToLower l service instance rnd flt =
     (let key = getCleanKey ToLower service instance
      in if tokens l key \<noteq> None
         then (Inl (''AddToken: token for '' @ key @ '' already exists''), l)
         else (case rnd of
                 Inl err \<Rightarrow> (Inl (''AddToken: could not generate a random token: '' @ err), l)
               | Inr digest \<Rightarrow>
                   (let token = hex digest
                    in case writeTokenToFile l key token flt of
                         (Some err, l') \<Rightarrow>
                           (Inl (''AddToken: could not write token to file: '' @ err), l')
                       | (None, l') \<Rightarrow>
                           (Inr token,
                            l'\<lparr>tokens := (tokens l')(key \<mapsto> token),
                               stats := (stats l')(key \<mapsto>
                                 \<lparr>Service = service, Instance = instance\<rparr>)\<rparr>))))"

definition GetTokens :: "logServer \<Rightarrow> (string \<rightharpoonup> string)" where
  "GetTokens l = (\<lambda>key. tokens l key)"

text \<open>
  \<open>RemoveToken\<close> and \<open>removeTokenFromFile\<close> take a flag \<open>lock\<close> that only decides
  whether the mutex is taken; it is left out with the mutex.
\<close>

text \<open>The loop of \<open>removeTokenFromFile\<close> over the scanned lines: what it appends.\<close>

fun keptLines :: "string \<Rightarrow> string list \<Rightarrow> string list" where
  "keptLines key [] = []"
| "keptLines key (line # rest) =
     (let parts = Split line TAB
      in if length parts \<noteq> 2 then keptLines key rest
         else (let keyParts = Split (parts ! 0) (CHR ''/'')
               in if length keyParts \<noteq> 2 then keptLines key rest
                  else if parts ! 0 \<noteq> key then line # keptLines key rest
                  else keptLines key rest))"

definition removeTokenFromFile :: "logServer \<Rightarrow> string \<Rightarrow> fault \<Rightarrow> error option \<times> logServer" where
  "removeTokenFromFile l key flt =
     (case fileExists flt (tokenFile l) of
        (Some err, file) \<Rightarrow>
          (Some (''removeTokenFromFile: could not create tokens database: '' @ err), l)
      | (None, file) \<Rightarrow>
          (let content = fileContent file;
               data = Join (keptLines key (scanLines content) @ [[NL]]) [NL]
           in case flt of
                OpenFault msg \<Rightarrow>
                  (Some (''removeTokenFromFile: could not open token database for reading: '' @ msg),
                   l\<lparr>tokenFile := file\<rparr>)
              | CloseFault msg \<Rightarrow> (Some msg, l\<lparr>tokenFile := file\<rparr>)
              | WriteFault n msg \<Rightarrow>
                  (Some (''removeTokenFromFile: could not rewrite token database: '' @ msg),
                   l\<lparr>tokenFile := Some (take n data)\<rparr>)
              | _ \<Rightarrow> (None, l\<lparr>tokenFile := Some data\<rparr>)))"

definition RemoveToken ::
  "(string \<Rightarrow> string) \<Rightarrow> logServer \<Rightarrow> string \<Rightarrow> string \<Rightarrow> fault
     \<Rightarrow> error option \<times> logServer" where
  "RemoveToken ToLower l service instance flt =
     (let key = getCleanKey ToLower service instance
      in if tokens l key = None
         then (Some ''RemoveToken: no such service/instance'', l)
         else (case removeTokenFromFile l key flt of
                 (Some err, l') \<Rightarrow>
                   (Some (''RemoveToken: could not remove token for '' @ key @ '': '' @ err), l')
               | (None, l') \<Rightarrow> (None, l'\<lparr>tokens := (tokens l')(key := None)\<rparr>)))"

text \<open>
  \<open>RemoveTokens\<close>. Go visits the keys of a map in an order of its choosing: \<open>order\<close>
  is that order. \<open>flts key\<close> is the fault that meets the removal of \<open>key\<close>.
\<close>

fun removeKeys ::
  "(string \<Rightarrow> string) \<Rightarrow> logServer \<Rightarrow> string list \<Rightarrow> (string \<Rightarrow> fault)
     \<Rightarrow> (panic + error option) \<times> logServer" where
  "removeKeys ToLower l [] flts = (Inr None, l)"
| "removeKeys ToLower l (key # rest) flts =
     (let parts = Split key (CHR ''/'')
      in if length parts < 2 then (Inl IndexOutOfRange, l)
         else (case RemoveToken ToLower l (parts ! 0) (parts ! 1) (flts key) of
                 (Some err, l') \<Rightarrow>
                   (Inr (Some (''RemoveTokens: could not remove token for key '' @ [CHR 0x27]
                               @ key @ [CHR 0x27] @ '': '' @ err)), l')
               | (None, l') \<Rightarrow> removeKeys ToLower l' rest flts))"

definition RemoveTokens ::
  "(string \<Rightarrow> string) \<Rightarrow> logServer \<Rightarrow> string \<Rightarrow> string list \<Rightarrow> (string \<Rightarrow> fault)
     \<Rightarrow> (panic + error option) \<times> logServer" where
  "RemoveTokens ToLower l service order flts =
     (let keys = filter (\<lambda>key. Split key (CHR ''/'') ! 0 = service) order
      in removeKeys ToLower l keys flts)"

text \<open>The loop of \<open>loadTokensFromDisk\<close> over the scanned lines.\<close>

fun loadLines :: "string list \<Rightarrow> (string \<rightharpoonup> string) \<Rightarrow> (string \<rightharpoonup> string)" where
  "loadLines [] toks = toks"
| "loadLines (line # rest) toks =
     (let parts = Split line TAB
      in if length parts \<noteq> 2 then loadLines rest toks
         else (let keyParts = Split (parts ! 0) (CHR ''/'')
               in if length keyParts \<noteq> 2 then loadLines rest toks
                  else loadLines rest (toks(parts ! 0 \<mapsto> parts ! 1))))"

definition loadTokensFromDisk :: "logServer \<Rightarrow> fault \<Rightarrow> error option \<times> logServer" where
  "loadTokensFromDisk l flt =
     (case fileExists flt (tokenFile l) of
        (Some err, file) \<Rightarrow>
          (Some (''loadTokensFromDisk: could not create tokens.db: '' @ err), l)
      | (None, file) \<Rightarrow>
          (let content = fileContent file;
               l' = l\<lparr>tokenFile := file, tokens := loadLines (scanLines content) (tokens l)\<rparr>
           in case flt of
                OpenFault msg \<Rightarrow>
                  (Some (''loadTokensFromDisk: could not open token file for reading: '' @ msg),
                   l\<lparr>tokenFile := file\<rparr>)
              | CloseFault msg \<Rightarrow> (Some msg, l')
              | _ \<Rightarrow> (None, l')))"

section \<open>Authorization (logserver.go)\<close>

text \<open>
  The request context as \<open>Authorize\<close> reads it: the metadata of the call, a map from
  field names to the values sent under the name, or none.
\<close>

type_synonym MD = "string \<rightharpoonup> string list"

text \<open>The loop over the required fields: the first one that is not there exactly once.\<close>

fun missingField :: "MD \<Rightarrow> string list \<Rightarrow> string option" where
  "missingField md [] = None"
| "missingField md (key # rest) =
     (case md key of
        None \<Rightarrow> Some key
      | Some slice \<Rightarrow> if length slice \<noteq> 1 then Some key else missingField md rest)"

text \<open>
  After the loop each of the three fields has one value, which \<open>md[key][0]\<close> reads:
  \<open>hd (the (md key))\<close> below is only evaluated there.
\<close>

definition Authorize :: "(string \<Rightarrow> string) \<Rightarrow> logServer \<Rightarrow> MD option \<Rightarrow> error option" where
  "Authorize ToLower l ctx =
     (case ctx of
        None \<Rightarrow> Some ''Authorize: missing metadata''
      | Some md \<Rightarrow>
          (case missingField md [''service'', ''instance'', ''token''] of
             Some key \<Rightarrow> Some (''Authorize: missing '' @ key)
           | None \<Rightarrow>
               (let service = hd (the (md ''service''));
                    instance = hd (the (md ''instance''));
                    key = ToLower service @ ''/'' @ ToLower instance;
                    token = hd (the (md ''token''))
                in case tokens l key of
                     None \<Rightarrow> Some ''Authorize: unknown service/instance''
                   | Some realToken \<Rightarrow>
                       if realToken \<noteq> token then Some ''Authorize: bad token'' else None)))"

text \<open>
  The interceptor that \<open>New\<close> installs in the gRPC server: what it returns is what the
  server sends back to the caller.
\<close>

definition intercept ::
  "(string \<Rightarrow> string) \<Rightarrow> logServer \<Rightarrow> MD option \<Rightarrow> 'req
     \<Rightarrow> (MD option \<Rightarrow> 'req \<Rightarrow> error + 'resp) \<Rightarrow> error + 'resp" where
  "intercept ToLower l ctx req handler =
     (case Authorize ToLower l ctx of
        Some errAuth \<Rightarrow> Inl errAuth
      | None \<Rightarrow> handler ctx req)"

section \<open>The management console (manager.go)\<close>

text \<open>
  The values of an argument bag \<open>unixsock.Args\<close>, a map from names to \<open>interface{}\<close>:
  the nil interface, a \<open>string\<close>, or a value of another dynamic type, of which only the
  kind matters (\<open>OtherVal String\<close> is a value of a named string type). Of the kinds
  of \<open>reflect\<close>, those of the values that a decoded request can hold are listed.
\<close>

datatype kind = Bool | Int | Float64 | String | Slice | Map | Struct | Ptr

datatype iface = NilVal | StringVal string | OtherVal kind

type_synonym Args = "string \<rightharpoonup> iface"

text \<open>\<open>reflect.TypeOf(x).Kind()\<close>: \<open>TypeOf\<close> of the nil interface is nil, and the call panics.\<close>

definition kindOf :: "iface \<Rightarrow> panic + kind" where
  "kindOf x = (case x of NilVal \<Rightarrow> Inl NilDereference | StringVal s \<Rightarrow> Inr String | OtherVal k \<Rightarrow> Inr k)"

text \<open>The type assertion \<open>args[name].(string)\<close>.\<close>

definition assertString :: "iface option \<Rightarrow> panic + string" where
  "assertString x = (case x of Some (StringVal s) \<Rightarrow> Inr s | _ \<Rightarrow> Inl TypeAssertion)"

record arg =
  Name :: string
  Kind :: kind

fun validArguments :: "Args \<Rightarrow> arg list \<Rightarrow> panic + bool" where
  "validArguments args [] = Inr True"
| "validArguments args (f # required) =
     (case args (Name f) of
        None \<Rightarrow> Inr False
      | Some x \<Rightarrow>
          (case kindOf x of
             Inl p \<Rightarrow> Inl p
           | Inr k \<Rightarrow> if k \<noteq> Kind f then Inr False else validArguments args required))"

text \<open>
  A \<open>lentele\<close> table as the handlers fill it. The response carries the table itself:
  its rendering to text is the library's and is not modelled.
\<close>

record table =
  Header :: "string list"
  Title :: string
  Rows :: "string list list"

record Response =
  Status :: string
  Payload :: "table option"
  Error :: string

definition emptyResponse :: Response where
  "emptyResponse = \<lparr>Status = [], Payload = None, Error = []\<rparr>"

definition respMissingArgs :: Response where
  "respMissingArgs = \<lparr>Status = ''failure'', Payload = None, Error = ''Missing/invalid parameters''\<rparr>"

definition CmdTokensAdd ::
  "(string \<Rightarrow> string) \<Rightarrow> logServer \<Rightarrow> Args \<Rightarrow> error + string \<Rightarrow> fault
     \<Rightarrow> (panic + Response) \<times> logServer" where
  "CmdTokensAdd ToLower l args rnd flt =
     (case validArguments args [\<lparr>Name = ''service'', Kind = String\<rparr>,
                                \<lparr>Name = ''instance'', Kind = String\<rparr>] of
        Inl p \<Rightarrow> (Inl p, l)
      | Inr False \<Rightarrow> (Inr respMissingArgs, l)
      | Inr True \<Rightarrow>
          (case assertString (args ''service'') of
             Inl p \<Rightarrow> (Inl p, l)
           | Inr service \<Rightarrow>
               (case assertString (args ''instance'') of
                  Inl p \<Rightarrow> (Inl p, l)
                | Inr instance \<Rightarrow>
                    (case AddToken ToLower l service instance rnd flt of
                       (Inl err, l') \<Rightarrow>
                         (Inr \<lparr>Status = ''failure'', Payload = None,
                               Error = ''Could not add token: '' @ err\<rparr>, l')
                     | (Inr token, l') \<Rightarrow>
                         (Inr \<lparr>Status = ''success'',
                               Payload = Some
                                 \<lparr>Header = [''Service'', ''Instance'', ''Token''],
                                  Title = ''Token created for '' @ service @ ''/'' @ instance,
                                  Rows = [[service, instance, token]]\<rparr>,
                               Error = []\<rparr>, l')))))"

text \<open>The loop of \<open>CmdTokensListInstances\<close> over the tokens, visited in \<open>order\<close>.\<close>

fun instanceRows :: "(string \<rightharpoonup> string) \<Rightarrow> string \<Rightarrow> string list \<Rightarrow> panic + string list list" where
  "instanceRows toks service [] = Inr []"
| "instanceRows toks service (key # rest) =
     (case toks key of
        None \<Rightarrow> instanceRows toks service rest
      | Some token \<Rightarrow>
          (let parts = Split key (CHR ''/'')
           in if length parts \<noteq> 2 then instanceRows toks service rest
              else if parts ! 0 = service
              then (if length token < 10 then Inl SliceOutOfRange
                    else (case instanceRows toks service rest of
                            Inl p \<Rightarrow> Inl p
                          | Inr rows \<Rightarrow>
                              Inr ([parts ! 1, take 10 token @ ''...'', ''???'', ''???''] # rows)))
              else instanceRows toks service rest))"

definition CmdTokensListInstances ::
  "(string \<Rightarrow> string) \<Rightarrow> logServer \<Rightarrow> Args \<Rightarrow> string list \<Rightarrow> panic + Response" where
  "CmdTokensListInstances ToLower l args order =
     (case validArguments args [\<lparr>Name = ''service'', Kind = String\<rparr>] of
        Inl p \<Rightarrow> Inl p
      | Inr False \<Rightarrow> Inr respMissingArgs
      | Inr True \<Rightarrow>
          (case assertString (args ''service'') of
             Inl p \<Rightarrow> Inl p
           | Inr s \<Rightarrow>
               (let service = ToLower s
                in case instanceRows (tokens l) service order of
                     Inl p \<Rightarrow> Inl p
                   | Inr rows \<Rightarrow>
                       Inr \<lparr>Status = ''success'',
                            Payload = Some
                              \<lparr>Header = [''Instance'', ''Token'', ''Last IP'', ''Logs parsed''],
                               Title = ''Service '' @ service @ '': permited instances'',
                               Rows = rows\<rparr>,
                            Error = []\<rparr>)))"

text \<open>
  \<open>CmdTokensListServices\<close>: the names of the services in the order of their first
  visit, then sorted. \<open>counts\<close> is a copy of the array in the map, so that the counters
  in the map stay at zero. \<open>now\<close> is the formatted time of the call.
\<close>

fun serviceNames :: "string list \<Rightarrow> string list \<Rightarrow> string list" where
  "serviceNames names [] = names"
| "serviceNames names (key # rest) =
     (let parts = Split key (CHR ''/'')
      in if length parts \<noteq> 2 then serviceNames names rest
         else if parts ! 0 \<notin> set names then serviceNames (names @ [parts ! 0]) rest
         else serviceNames names rest)"

definition CmdTokensListServices :: "logServer \<Rightarrow> Args \<Rightarrow> string list \<Rightarrow> string \<Rightarrow> Response" where
  "CmdTokensListServices l args order now =
     \<lparr>Status = ''success'',
      Payload = Some
        \<lparr>Header = [[], ''Service'', ''Instances'', ''Last log entry'', ''Log entries parsed''],
         Title = ''Permitted services'',
         Rows = map (\<lambda>name. [[CHR 0xE2, CHR 0x97, CHR 0x8F], name, ''0'', now, ''0''])
                    (sort (serviceNames [] order))\<rparr>,
      Error = []\<rparr>"

text \<open>
  \<open>Execute\<close>. The line it prints is left out. The handlers that the source leaves
  empty return the empty response.
\<close>

definition Execute ::
  "(string \<Rightarrow> string) \<Rightarrow> logServer \<Rightarrow> string \<Rightarrow> Args \<Rightarrow> error + string \<Rightarrow> fault
     \<Rightarrow> string list \<Rightarrow> string \<Rightarrow> (panic + Response) \<times> logServer" where
  "Execute ToLower l cmd args rnd flt order now =
     (let c = ToLower cmd
      in if c = ''statistics'' then (Inr emptyResponse, l)
         else if c = ''tokens.add'' then CmdTokensAdd ToLower l args rnd flt
         else if c = ''tokens.remove.instance'' then (Inr emptyResponse, l)
         else if c = ''tokens.remove.service'' then (Inr emptyResponse, l)
         else if c = ''tokens.list.instances'' then (CmdTokensListInstances ToLower l args order, l)
         else if c = ''tokens.list.services'' then (Inr (CmdTokensListServices l args order now), l)
         else if c = ''logs.list'' then (Inr emptyResponse, l)
         else if c = ''remote.add'' then (Inr emptyResponse, l)
         else if c = ''remote.remove'' then (Inr emptyResponse, l)
         else if c = ''remote.list'' then (Inr emptyResponse, l)
         else (Inr \<lparr>Status = ''failure'', Payload = None,
                    Error = ''Execute: unknown command '' @ [CHR 0x27] @ cmd @ [CHR 0x27]\<rparr>, l))"

section \<open>Start-up and the log handler\<close>

text \<open>
  The state that \<open>New\<close> leaves: empty maps, beside the token file as it is on disk.
\<close>

definition newServer :: "string option \<Rightarrow> logServer" where
  "newServer file = \<lparr>tokens = Map.empty, stats = Map.empty, tokenFile = file\<rparr>"

text \<open>
  \<open>RemoteLog\<close>, the handler behind the interceptor. \<open>raw\<close> is the outcome of the
  logger's \<open>RawEntry\<close>, which is not part of this repository.
\<close>

type_synonym LogEntry = "int \<rightharpoonup> string"

definition RemoteLog :: "error option \<Rightarrow> MD option \<Rightarrow> LogEntry \<Rightarrow> error + unit" where
  "RemoteLog raw ctx logEntry =
     (case raw of
        Some err \<Rightarrow> Inl (''RemoteLog: could not process raw log: '' @ err)
      | None \<Rightarrow> Inr ())"

section \<open>Notions used to state the properties\<close>

text \<open>
  The two checks that \<open>loadTokensFromDisk\<close> and \<open>removeTokenFromFile\<close> make on a line
  before they use it: two tab-separated fields, the first of the form
  \<open>service/instance\<close>.
\<close>

definition wellFormedLine :: "string \<Rightarrow> bool" where
  "wellFormedLine line =
     (length (Split line TAB) = 2 \<and> length (Split (Split line TAB ! 0) (CHR ''/'')) = 2)"

text \<open>
  The file after a removal in the words of the spec: the remaining lines, each followed by
  a blank line.
\<close>

definition specRewrite :: "string list \<Rightarrow> string" where
  "specRewrite remaining = concat (map (\<lambda>line. line @ [NL] @ [NL]) remaining)"

text \<open>
  A run of \<open>AddToken\<close> calls that all succeed: each request is a service, an instance
  and the digest drawn for it; the file system does not fail. \<open>None\<close> when one of the
  calls returns an error.
\<close>

fun addTokens ::
  "(string \<Rightarrow> string) \<Rightarrow> logServer \<Rightarrow> (string \<times> string \<times> string) list \<Rightarrow> logServer option" where
  "addTokens ToLower l [] = Some l"
| "addTokens ToLower l ((service, instance, digest) # rest) =
     (case AddToken ToLower l service instance (Inr digest) NoFault of
        (Inl err, l') \<Rightarrow> None
      | (Inr token, l') \<Rightarrow> addTokens ToLower l' rest)"

text \<open>
  A key that survives a reload: free of tabs and newlines, of two parts at \<open>/\<close>, and
  short enough for its line (the key, a tab and the 64 digits of the token) to fit into
  the buffer of the scanner.
\<close>

definition storableKey :: "string \<Rightarrow> bool" where
  "storableKey key =
     (TAB \<notin> set key \<and> NL \<notin> set key \<and> length (Split key (CHR ''/'')) = 2
      \<and> length key + 65 < MaxScanTokenSize)"

text \<open>One entry put into a token map.\<close>

definition putEntry :: "string \<times> string \<Rightarrow> (string \<rightharpoonup> string) \<Rightarrow> (string \<rightharpoonup> string)" where
  "putEntry kt m = m(fst kt \<mapsto> snd kt)"

text \<open>The key and the token of a request, and the line that \<open>AddToken\<close> writes for it.\<close>

definition entryOf :: "(string \<Rightarrow> string) \<Rightarrow> string \<times> string \<times> string \<Rightarrow> string \<times> string" where
  "entryOf ToLower r = (case r of (service, instance, digest) \<Rightarrow>
     (getCleanKey ToLower service instance, hex digest))"

section \<open>Adding a token\<close>

lemma writeTokenToFile_ok:
  "writeTokenToFile l key token NoFault =
     (None, l\<lparr>tokenFile := Some (fileContent (tokenFile l) @ key @ [TAB] @ token @ [NL])\<rparr>)"
  by (simp add: writeTokenToFile_def fileExists_def fileContent_def Let_def)

lemma writeTokenToFile_fault:
  "flt \<noteq> NoFault \<Longrightarrow>
     \<exists>err l'. writeTokenToFile l key token flt = (Some err, l')
        \<and> tokens l' = tokens l \<and> stats l' = stats l"
  by (cases flt) (auto simp add: writeTokenToFile_def fileExists_def Let_def)

text \<open>
  C1. \<open>AddToken\<close> on a key that the store holds fails with the already-exists error and
  leaves the store as it was, whatever the random source and the file system do.
  On a key that the store does not hold, when the token is drawn and the file is
  written, it returns the token, the file has grown by the one line
  \<open>key TAB token NL\<close>, the memory holds the token under the case-folded key, \<open>GetTokens\<close>
  shows the old entries and this one, and any further \<open>AddToken\<close> for the pair fails
  with the already-exists error.
\<close>

theorem AddToken_spec:
  "(tokens l (getCleanKey ToLower service instance) \<noteq> None \<longrightarrow>
      AddToken ToLower l service instance rnd flt =
        (Inl (''AddToken: token for '' @ getCleanKey ToLower service instance @ '' already exists''), l))
   \<and> (tokens l (getCleanKey ToLower service instance) = None \<longrightarrow>
        (\<exists>l'. AddToken ToLower l service instance (Inr digest) NoFault = (Inr (hex digest), l')
           \<and> tokenFile l' = Some (fileContent (tokenFile l)
                @ getCleanKey ToLower service instance @ [TAB] @ hex digest @ [NL])
           \<and> tokens l' = (tokens l)(getCleanKey ToLower service instance \<mapsto> hex digest)
           \<and> GetTokens l' = (GetTokens l)(getCleanKey ToLower service instance \<mapsto> hex digest)
           \<and> (\<forall>rnd' flt'. AddToken ToLower l' service instance rnd' flt' =
                (Inl (''AddToken: token for '' @ getCleanKey ToLower service instance
                      @ '' already exists''), l'))))"
  by (simp add: AddToken_def writeTokenToFile_ok GetTokens_def Let_def)

theorem AddToken_spec_witness:
  "AddToken asciiLower ((newServer None)\<lparr>tokens := [''svc/a'' \<mapsto> ''00'']\<rparr>) ''Svc'' ''A''
       (Inr ''ab'') NoFault
     = (Inl ''AddToken: token for svc/a already exists'',
        (newServer None)\<lparr>tokens := [''svc/a'' \<mapsto> ''00'']\<rparr>)
   \<and> (\<exists>l'. AddToken asciiLower (newServer None) ''Svc'' ''A'' (Inr ''ab'') NoFault
              = (Inr ''6162'', l')
          \<and> tokenFile l' = Some (''svc/a'' @ [TAB] @ ''6162'' @ [NL])
          \<and> tokens l' = [''svc/a'' \<mapsto> ''6162''])"
  using AddToken_spec [of "(newServer None)\<lparr>tokens := [''svc/a'' \<mapsto> ''00'']\<rparr>" asciiLower
          "''Svc''" "''A''" "Inr ''ab''" NoFault]
        AddToken_spec [of "newServer None" asciiLower "''Svc''" "''A''" _ _ "''ab''"]
  by (auto simp add: getCleanKey_def asciiLower_def asciiLowerChar_def newServer_def
        fileContent_def hex_def hexdigit_def)

lemma writeTokenToFile_early_fault:
  "(\<exists>msg. flt = ExistsFault msg) \<or> (\<exists>msg. flt = OpenFault msg) \<Longrightarrow>
     fileContent (tokenFile (snd (writeTokenToFile l key token flt))) = fileContent (tokenFile l)"
  by (auto simp add: writeTokenToFile_def fileExists_def fileContent_def Let_def)

text \<open>
  C2 (as amended). When the key is new and \<open>writeTokenToFile\<close> reports a failure (of
  the file check, the open, the write or the close), \<open>AddToken\<close> returns an error and
  the token map and the statistics in memory are what they were. When the failure is that
  of the file check or of the open, nothing was written and the content of the file is
  what it was. Of the file after a failed write or a failed close nothing is said.
\<close>

theorem AddToken_write_failure:
  assumes "tokens l (getCleanKey ToLower service instance) = None"
    and "fst (writeTokenToFile l (getCleanKey ToLower service instance) (hex digest) flt) \<noteq> None"
  shows "(\<exists>err. fst (AddToken ToLower l service instance (Inr digest) flt) = Inl err)
         \<and> tokens (snd (AddToken ToLower l service instance (Inr digest) flt)) = tokens l
         \<and> stats (snd (AddToken ToLower l service instance (Inr digest) flt)) = stats l
         \<and> ((\<exists>msg. flt = ExistsFault msg) \<or> (\<exists>msg. flt = OpenFault msg) \<longrightarrow>
              fileContent (tokenFile (snd (AddToken ToLower l service instance (Inr digest) flt)))
                = fileContent (tokenFile l))"
proof -
  have "flt \<noteq> NoFault"
    using assms(2) by (auto simp add: writeTokenToFile_ok)
  then obtain err l' where
    w: "writeTokenToFile l (getCleanKey ToLower service instance) (hex digest) flt = (Some err, l')"
    and "tokens l' = tokens l" and "stats l' = stats l"
    using writeTokenToFile_fault by blast
  with assms(1) have a: "AddToken ToLower l service instance (Inr digest) flt
      = (Inl (''AddToken: could not write token to file: '' @ err), l')"
    by (simp add: AddToken_def Let_def)
  have "fileContent (tokenFile l') = fileContent (tokenFile l)"
    if "(\<exists>msg. flt = ExistsFault msg) \<or> (\<exists>msg. flt = OpenFault msg)"
    using writeTokenToFile_early_fault [OF that, of l "getCleanKey ToLower service instance" "hex digest"] w
    by simp
  with a \<open>tokens l' = tokens l\<close> \<open>stats l' = stats l\<close> show ?thesis
    by simp
qed

theorem AddToken_write_failure_witness:
  "(\<exists>err. fst (AddToken asciiLower (newServer None) ''Svc'' ''A'' (Inr ''ab'')
              (WriteFault 3 ''no space left on device'')) = Inl err)
   \<and> tokens (snd (AddToken asciiLower (newServer None) ''Svc'' ''A'' (Inr ''ab'')
              (WriteFault 3 ''no space left on device''))) = Map.empty
   \<and> tokens (snd (AddToken asciiLower (newServer None) ''Svc'' ''A'' (Inr ''ab'')
              (OpenFault ''permission denied''))) = Map.empty
   \<and> fileContent (tokenFile (snd (AddToken asciiLower (newServer None) ''Svc'' ''A'' (Inr ''ab'')
              (OpenFault ''permission denied'')))) = []"
proof -
  have a: "tokens (newServer None) (getCleanKey asciiLower ''Svc'' ''A'') = None"
    by (simp add: newServer_def)
  have b: "fst (writeTokenToFile (newServer None) (getCleanKey asciiLower ''Svc'' ''A'')
             (hex ''ab'') (WriteFault 3 ''no space left on device'')) \<noteq> None"
    by (simp add: writeTokenToFile_def fileExists_def Let_def)
  have c: "fst (writeTokenToFile (newServer None) (getCleanKey asciiLower ''Svc'' ''A'')
             (hex ''ab'') (OpenFault ''permission denied'')) \<noteq> None"
    by (simp add: writeTokenToFile_def fileExists_def Let_def)
  show ?thesis
    using AddToken_write_failure [OF a b] AddToken_write_failure [OF a c]
    by (simp add: newServer_def fileContent_def)
qed

text \<open>
  The claim as the spec has it, the write and the insert as one atomic step with no
  divergence between file and memory, fails. When the close fails after the write,
  \<open>AddToken\<close> returns an error and the memory has no token, but the file holds the whole
  line and a reload finds the token. When the write fails after 8 bytes, the file holds
  the key and two digits, and a reload finds a token of two digits.
\<close>

theorem atomic_append_counterexample:
  "fst (AddToken asciiLower (newServer None) ''Svc'' ''A'' (Inr ''ab'')
          (CloseFault ''input/output error''))
     = Inl ''AddToken: could not write token to file: input/output error''
   \<and> GetTokens (snd (AddToken asciiLower (newServer None) ''Svc'' ''A'' (Inr ''ab'')
          (CloseFault ''input/output error''))) ''svc/a'' = None
   \<and> tokenFile (snd (AddToken asciiLower (newServer None) ''Svc'' ''A'' (Inr ''ab'')
          (CloseFault ''input/output error'')))
     = Some (''svc/a'' @ [TAB] @ ''6162'' @ [NL])
   \<and> GetTokens (snd (loadTokensFromDisk (newServer (tokenFile (snd (AddToken asciiLower
          (newServer None) ''Svc'' ''A'' (Inr ''ab'') (CloseFault ''input/output error''))))) NoFault))
        ''svc/a'' = Some ''6162''
   \<and> GetTokens (snd (AddToken asciiLower (newServer None) ''Svc'' ''A'' (Inr ''ab'')
          (WriteFault 8 ''no space left on device''))) ''svc/a'' = None
   \<and> tokenFile (snd (AddToken asciiLower (newServer None) ''Svc'' ''A'' (Inr ''ab'')
          (WriteFault 8 ''no space left on device'')))
     = Some (''svc/a'' @ [TAB] @ ''61'')
   \<and> GetTokens (snd (loadTokensFromDisk (newServer (tokenFile (snd (AddToken asciiLower
          (newServer None) ''Svc'' ''A'' (Inr ''ab'') (WriteFault 8 ''no space left on device'')))))
          NoFault)) ''svc/a'' = Some ''61''"
  by (simp add: AddToken_def writeTokenToFile_def loadTokensFromDisk_def fileExists_def
        fileContent_def getCleanKey_def asciiLower_def asciiLowerChar_def newServer_def
        GetTokens_def hex_def hexdigit_def Let_def scanLines_def rawLines_def dropCR_def
        MaxScanTokenSize_def TAB_def NL_def CR_def)

section \<open>Authorizing a call\<close>

lemma missingField_None:
  "missingField md ks = None \<longleftrightarrow> (\<forall>k\<in>set ks. \<exists>v. md k = Some [v])"
proof (induction ks)
  case Nil
  then show ?case by simp
next
  case (Cons k ks)
  show ?case
  proof (cases "md k")
    case None
    then show ?thesis by simp
  next
    case (Some slice)
    have "length slice = 1 \<longleftrightarrow> (\<exists>v. slice = [v])"
      by (cases slice) auto
    with Some Cons show ?thesis by auto
  qed
qed

lemma missingField_Some:
  "missingField md ks = Some k \<Longrightarrow> k \<in> set ks \<and> \<not> (\<exists>v. md k = Some [v])"
  by (induction ks) (auto split: option.splits if_splits)

text \<open>
  C3. \<open>Authorize\<close> answers with a missing-credentials error (no metadata, or the first
  of \<open>service\<close>, \<open>instance\<close>, \<open>token\<close> that is not there exactly once) whenever the
  context has no metadata or one of the three fields is absent or has a number of values
  other than one. With the three fields there once, it answers with the unknown-identity
  error when the store has no token under the case-folded key, with the bad-token
  error when the stored token differs from the one presented, and with no error when they
  are equal. It returns no error exactly when the three fields are there once and the
  store holds the presented token under the case-folded key.
\<close>

theorem Authorize_outcomes:
  "((ctx = None \<or> (\<exists>md k. ctx = Some md \<and> k \<in> {''service'', ''instance'', ''token''}
                      \<and> \<not> (\<exists>v. md k = Some [v])))
      \<longrightarrow> (Authorize ToLower l ctx = Some ''Authorize: missing metadata''
           \<or> (\<exists>k \<in> {''service'', ''instance'', ''token''}.
                 Authorize ToLower l ctx = Some (''Authorize: missing '' @ k))))
   \<and> (ctx = Some md \<and> md ''service'' = Some [service] \<and> md ''instance'' = Some [instance]
        \<and> md ''token'' = Some [token]
      \<longrightarrow> Authorize ToLower l ctx =
            (case tokens l (ToLower service @ ''/'' @ ToLower instance) of
               None \<Rightarrow> Some ''Authorize: unknown service/instance''
             | Some realToken \<Rightarrow>
                 if realToken = token then None else Some ''Authorize: bad token''))
   \<and> (Authorize ToLower l ctx = None
      \<longleftrightarrow> (\<exists>md service instance token. ctx = Some md \<and> md ''service'' = Some [service]
             \<and> md ''instance'' = Some [instance] \<and> md ''token'' = Some [token]
             \<and> tokens l (ToLower service @ ''/'' @ ToLower instance) = Some token))"
proof (intro conjI impI)
  assume a: "ctx = None \<or> (\<exists>md k. ctx = Some md \<and> k \<in> {''service'', ''instance'', ''token''}
                      \<and> \<not> (\<exists>v. md k = Some [v]))"
  show "Authorize ToLower l ctx = Some ''Authorize: missing metadata''
           \<or> (\<exists>k \<in> {''service'', ''instance'', ''token''}.
                 Authorize ToLower l ctx = Some (''Authorize: missing '' @ k))"
  proof (cases ctx)
    case None
    then show ?thesis by (simp add: Authorize_def)
  next
    case (Some md)
    with a have "missingField md [''service'', ''instance'', ''token''] \<noteq> None"
      unfolding missingField_None by auto
    then obtain k where k: "missingField md [''service'', ''instance'', ''token''] = Some k"
      by blast
    from missingField_Some[OF k] have "k \<in> {''service'', ''instance'', ''token''}" by simp
    moreover from Some k have "Authorize ToLower l ctx = Some (''Authorize: missing '' @ k)"
      by (simp add: Authorize_def)
    ultimately show ?thesis by blast
  qed
next
  assume "ctx = Some md \<and> md ''service'' = Some [service] \<and> md ''instance'' = Some [instance]
        \<and> md ''token'' = Some [token]"
  then show "Authorize ToLower l ctx =
            (case tokens l (ToLower service @ ''/'' @ ToLower instance) of
               None \<Rightarrow> Some ''Authorize: unknown service/instance''
             | Some realToken \<Rightarrow>
                 if realToken = token then None else Some ''Authorize: bad token'')"
    by (auto simp add: Authorize_def split: option.splits)
next
  show "Authorize ToLower l ctx = None
      \<longleftrightarrow> (\<exists>md service instance token. ctx = Some md \<and> md ''service'' = Some [service]
             \<and> md ''instance'' = Some [instance] \<and> md ''token'' = Some [token]
             \<and> tokens l (ToLower service @ ''/'' @ ToLower instance) = Some token)"
  proof (cases ctx)
    case None
    then show ?thesis by (simp add: Authorize_def)
  next
    case (Some md)
    show ?thesis
    proof (cases "missingField md [''service'', ''instance'', ''token'']")
      case None
      then obtain s i t where "md ''service'' = Some [s]" "md ''instance'' = Some [i]"
        "md ''token'' = Some [t]"
        unfolding missingField_None by auto
      with Some None show ?thesis
        by (auto simp add: Authorize_def split: option.splits)
    next
      case (Some k)
      from missingField_Some[OF Some] \<open>ctx = Some md\<close> Some show ?thesis
        by (auto simp add: Authorize_def)
    qed
  qed
qed

theorem Authorize_outcomes_witness:
  "Authorize asciiLower ((newServer None)\<lparr>tokens := [''svc/a'' \<mapsto> ''t1'']\<rparr>)
      (Some [''service'' \<mapsto> [''Svc''], ''instance'' \<mapsto> [''A''], ''token'' \<mapsto> [''t1'']]) = None
   \<and> Authorize asciiLower ((newServer None)\<lparr>tokens := [''svc/a'' \<mapsto> ''t1'']\<rparr>)
      (Some [''service'' \<mapsto> [''Svc''], ''instance'' \<mapsto> [''A''], ''token'' \<mapsto> [''t2'']])
        = Some ''Authorize: bad token''
   \<and> Authorize asciiLower ((newServer None)\<lparr>tokens := [''svc/a'' \<mapsto> ''t1'']\<rparr>)
      (Some [''service'' \<mapsto> [''Svc''], ''instance'' \<mapsto> [''B''], ''token'' \<mapsto> [''t1'']])
        = Some ''Authorize: unknown service/instance''
   \<and> Authorize asciiLower ((newServer None)\<lparr>tokens := [''svc/a'' \<mapsto> ''t1'']\<rparr>) None
        = Some ''Authorize: missing metadata''"
proof -
  let ?l = "(newServer None)\<lparr>tokens := [''svc/a'' \<mapsto> ''t1'']\<rparr>"
  have present: "Authorize asciiLower ?l
      (Some [''service'' \<mapsto> [''Svc''], ''instance'' \<mapsto> [i], ''token'' \<mapsto> [t]])
      = (case tokens ?l (asciiLower ''Svc'' @ ''/'' @ asciiLower i) of
           None \<Rightarrow> Some ''Authorize: unknown service/instance''
         | Some realToken \<Rightarrow> if realToken = t then None else Some ''Authorize: bad token'')"
    for i t
    using Authorize_outcomes [where ToLower = asciiLower and l = ?l
      and ctx = "Some [''service'' \<mapsto> [''Svc''], ''instance'' \<mapsto> [i], ''token'' \<mapsto> [t]]"
      and md = "[''service'' \<mapsto> [''Svc''], ''instance'' \<mapsto> [i], ''token'' \<mapsto> [t]]"
      and service = "''Svc''" and ?instance = i and token = t, THEN conjunct2, THEN conjunct1]
    by simp
  have absent: "Authorize asciiLower ?l None = Some ''Authorize: missing metadata''
      \<or> (\<exists>k \<in> {''service'', ''instance'', ''token''}.
            Authorize asciiLower ?l None = Some (''Authorize: missing '' @ k))"
    using Authorize_outcomes [where ToLower = asciiLower and l = ?l and ctx = None,
      THEN conjunct1]
    by simp
  have "Authorize asciiLower ?l None = Some ''Authorize: missing metadata''"
    by (simp add: Authorize_def)
  with absent present [of "''A''" "''t1''"] present [of "''A''" "''t2''"]
    present [of "''B''" "''t1''"]
  show ?thesis
    by (simp add: asciiLower_def asciiLowerChar_def newServer_def)
qed

text \<open>
  C4 (as amended). When \<open>Authorize\<close> denies a call, the interceptor returns the error of
  \<open>Authorize\<close> as it is, whatever the handler, and its message tells the reason: no
  metadata, the name of the missing field, an unknown service/instance, or a bad token.
\<close>

theorem intercept_denied:
  assumes "Authorize ToLower l ctx = Some errAuth"
  shows "intercept ToLower l ctx req handler = Inl errAuth
         \<and> (errAuth = ''Authorize: missing metadata''
            \<or> errAuth \<in> {''Authorize: missing service'', ''Authorize: missing instance'',
                          ''Authorize: missing token''}
            \<or> errAuth = ''Authorize: unknown service/instance''
            \<or> errAuth = ''Authorize: bad token'')"
proof
  from assms show "intercept ToLower l ctx req handler = Inl errAuth"
    by (simp add: intercept_def)
next
  show "errAuth = ''Authorize: missing metadata''
            \<or> errAuth \<in> {''Authorize: missing service'', ''Authorize: missing instance'',
                          ''Authorize: missing token''}
            \<or> errAuth = ''Authorize: unknown service/instance''
            \<or> errAuth = ''Authorize: bad token''"
  proof (cases ctx)
    case None
    with assms show ?thesis by (simp add: Authorize_def)
  next
    case (Some md)
    show ?thesis
    proof (cases "missingField md [''service'', ''instance'', ''token'']")
      case None
      with Some assms show ?thesis
        by (auto simp add: Authorize_def Let_def split: option.splits if_splits)
    next
      case (Some k)
      from missingField_Some[OF Some] have "k \<in> {''service'', ''instance'', ''token''}" by simp
      with \<open>ctx = Some md\<close> Some assms show ?thesis
        by (auto simp add: Authorize_def)
    qed
  qed
qed

theorem intercept_denied_witness:
  "intercept asciiLower ((newServer None)\<lparr>tokens := [''svc/a'' \<mapsto> ''t1'']\<rparr>)
      (Some [''service'' \<mapsto> [''Svc''], ''instance'' \<mapsto> [''A''], ''token'' \<mapsto> [''t2'']])
      Map.empty (RemoteLog None)
     = Inl ''Authorize: bad token''"
proof -
  have a: "Authorize asciiLower ((newServer None)\<lparr>tokens := [''svc/a'' \<mapsto> ''t1'']\<rparr>)
      (Some [''service'' \<mapsto> [''Svc''], ''instance'' \<mapsto> [''A''], ''token'' \<mapsto> [''t2'']])
        = Some ''Authorize: bad token''"
    by (simp add: Authorize_def asciiLower_def asciiLowerChar_def newServer_def)
  show ?thesis
    using intercept_denied [OF a, of Map.empty "RemoteLog None"] by simp
qed

text \<open>
  The claim as the spec has it fails: a call without the \<open>token\<close> field, a call for an
  unknown instance and a call with a wrong token are all denied, and the caller gets three
  different errors.
\<close>

theorem generic_deny_counterexample:
  "intercept asciiLower ((newServer None)\<lparr>tokens := [''svc/a'' \<mapsto> ''t1'']\<rparr>)
      (Some [''service'' \<mapsto> [''svc''], ''instance'' \<mapsto> [''a'']]) Map.empty (RemoteLog None)
     = Inl ''Authorize: missing token''
   \<and> intercept asciiLower ((newServer None)\<lparr>tokens := [''svc/a'' \<mapsto> ''t1'']\<rparr>)
      (Some [''service'' \<mapsto> [''svc''], ''instance'' \<mapsto> [''b''], ''token'' \<mapsto> [''t1'']])
      Map.empty (RemoteLog None)
     = Inl ''Authorize: unknown service/instance''
   \<and> intercept asciiLower ((newServer None)\<lparr>tokens := [''svc/a'' \<mapsto> ''t1'']\<rparr>)
      (Some [''service'' \<mapsto> [''svc''], ''instance'' \<mapsto> [''a''], ''token'' \<mapsto> [''t2'']])
      Map.empty (RemoteLog None)
     = Inl ''Authorize: bad token''
   \<and> intercept asciiLower ((newServer None)\<lparr>tokens := [''svc/a'' \<mapsto> ''t1'']\<rparr>)
      (Some [''service'' \<mapsto> [''svc''], ''instance'' \<mapsto> [''a'']]) Map.empty (RemoteLog None)
     \<noteq> intercept asciiLower ((newServer None)\<lparr>tokens := [''svc/a'' \<mapsto> ''t1'']\<rparr>)
      (Some [''service'' \<mapsto> [''svc''], ''instance'' \<mapsto> [''a''], ''token'' \<mapsto> [''t2'']])
      Map.empty (RemoteLog None)"
  by (simp add: intercept_def Authorize_def asciiLower_def asciiLowerChar_def newServer_def)

section \<open>Lines, fields and the scanner\<close>


lemma Split_no_sep: "sep \<notin> set s \<Longrightarrow> Split s sep = [s]"
  by (induction s) auto

lemma Split_append: "sep \<notin> set a \<Longrightarrow> Split (a @ sep # b) sep = a # Split b sep"
  by (induction a) auto


lemma Split_concat_lines:
  "\<forall>x\<in>set ls. NL \<notin> set x \<Longrightarrow> Split (concat (map (\<lambda>x. x @ [NL]) ls)) NL = ls @ [[]]"
  by (induction ls) (auto simp add: Split_append)

lemma rawLines_concat:
  "\<forall>x\<in>set ls. NL \<notin> set x \<Longrightarrow> rawLines (concat (map (\<lambda>x. x @ [NL]) ls)) = ls"
  by (simp add: rawLines_def Split_concat_lines)




lemma scanLines_concat:
  "\<forall>x\<in>set ls. NL \<notin> set x \<and> length x < MaxScanTokenSize \<Longrightarrow>
     scanLines (concat (map (\<lambda>x. x @ [NL]) ls)) = map dropCR ls"
proof -
  assume a: "\<forall>x\<in>set ls. NL \<notin> set x \<and> length x < MaxScanTokenSize"
  then have tw: "takeWhile (\<lambda>ln. length ln < MaxScanTokenSize) ls = ls"
    by (simp add: takeWhile_eq_all_conv)
  from a show ?thesis by (simp add: scanLines_def rawLines_concat tw)
qed

lemma Join_lines: "Join (xs @ [[NL]]) [NL] = concat (map (\<lambda>x. x @ [NL]) xs) @ [NL]"
proof (induction xs)
  case Nil
  then show ?case by simp
next
  case (Cons x xs)
  then show ?case by (cases xs) auto
qed

lemma keptLines_filter:
  "keptLines key ls = filter (\<lambda>line. wellFormedLine line \<and> Split line TAB ! 0 \<noteq> key) ls"
  by (induction ls) (auto simp add: wellFormedLine_def Let_def)



section \<open>Rewriting the file on removal\<close>

lemma removeTokenFromFile_NoFault:
  "removeTokenFromFile l key NoFault =
     (None, l\<lparr>tokenFile :=
        Some (Join (keptLines key (scanLines (fileContent (tokenFile l))) @ [[NL]]) [NL])\<rparr>)"
  by (simp add: removeTokenFromFile_def fileExists_def fileContent_def Let_def)

text \<open>
  C7 (as amended). When the rewrite succeeds, the file becomes the lines that the scanner
  delivers from the old content, that are well formed and whose key is not the removed
  one, in their order, each ended by one newline, with one more newline after the last:
  the file ends in a single blank line.
\<close>

theorem removeTokenFromFile_rewrite:
  "removeTokenFromFile l key NoFault =
     (None, l\<lparr>tokenFile := Some (concat (map (\<lambda>line. line @ [NL])
        (filter (\<lambda>line. wellFormedLine line \<and> Split line TAB ! 0 \<noteq> key)
           (scanLines (fileContent (tokenFile l))))) @ [NL])\<rparr>)"
  by (simp add: removeTokenFromFile_NoFault Join_lines keptLines_filter)

theorem removeTokenFromFile_rewrite_witness:
  "removeTokenFromFile
     (newServer (Some (''a/b'' @ [TAB] @ ''T1'' @ [NL] @ ''c/d'' @ [TAB] @ ''T2'' @ [NL]
                       @ ''e/f'' @ [TAB] @ ''T3'' @ [NL])))
     ''a/b'' NoFault =
   (None, newServer (Some (''c/d'' @ [TAB] @ ''T2'' @ [NL] @ ''e/f'' @ [TAB] @ ''T3'' @ [NL, NL])))"
  using removeTokenFromFile_rewrite [of
     "newServer (Some (''a/b'' @ [TAB] @ ''T1'' @ [NL] @ ''c/d'' @ [TAB] @ ''T2'' @ [NL]
                       @ ''e/f'' @ [TAB] @ ''T3'' @ [NL]))" "''a/b''"]
  by (simp add: newServer_def fileContent_def scanLines_def rawLines_def dropCR_def
        MaxScanTokenSize_def wellFormedLine_def TAB_def NL_def CR_def)

text \<open>
  The claim as the spec has it, a blank line after each remaining line, fails on a file
  of three tokens: the two lines that remain are written one below the other.
\<close>

theorem blank_line_after_each_counterexample:
  "tokenFile (snd (removeTokenFromFile
     (newServer (Some (''a/b'' @ [TAB] @ ''T1'' @ [NL] @ ''c/d'' @ [TAB] @ ''T2'' @ [NL]
                       @ ''e/f'' @ [TAB] @ ''T3'' @ [NL])))
     ''a/b'' NoFault))
   \<noteq> Some (specRewrite [''c/d'' @ [TAB] @ ''T2'', ''e/f'' @ [TAB] @ ''T3''])"
  by (simp add: removeTokenFromFile_def fileExists_def fileContent_def Let_def
        newServer_def scanLines_def rawLines_def dropCR_def specRewrite_def
        MaxScanTokenSize_def TAB_def NL_def CR_def)





section \<open>Reloading the store from its file\<close>

lemma putEntry_pair: "putEntry (k, t) m = m(k \<mapsto> t)"
  by (simp add: putEntry_def)

lemma hexdigit_in: "hexdigit n \<in> set ''0123456789abcdef''"
  unfolding hexdigit_def by (rule nth_mem) simp

lemma hex_chars: "set (hex d) \<subseteq> set ''0123456789abcdef''"
proof -
  have "hexdigit n \<in> set ''0123456789abcdef''" for n by (rule hexdigit_in)
  then show ?thesis unfolding hex_def by (induction d) auto
qed

lemma hex_no_control: "TAB \<notin> set (hex d)" "NL \<notin> set (hex d)" "CR \<notin> set (hex d)"
  using hex_chars [of d] by (auto simp add: TAB_def NL_def CR_def)

lemma length_hex: "length (hex d) = 2 * length d"
  unfolding hex_def by (induction d) auto

lemma dropCR_line: "CR \<notin> set t \<Longrightarrow> dropCR (k @ [TAB] @ t) = k @ [TAB] @ t"
  by (cases t rule: rev_cases) (auto simp add: dropCR_def TAB_def CR_def)

lemma AddToken_NoFault:
  "AddToken ToLower l service instance (Inr digest) NoFault =
     (if tokens l (getCleanKey ToLower service instance) \<noteq> None
      then (Inl (''AddToken: token for '' @ getCleanKey ToLower service instance
                 @ '' already exists''), l)
      else (Inr (hex digest),
            l\<lparr>tokenFile := Some (fileContent (tokenFile l)
                   @ getCleanKey ToLower service instance @ [TAB] @ hex digest @ [NL]),
              tokens := (tokens l)(getCleanKey ToLower service instance \<mapsto> hex digest),
              stats := (stats l)(getCleanKey ToLower service instance \<mapsto>
                         \<lparr>Service = service, Instance = instance\<rparr>)\<rparr>))"
  by (simp add: AddToken_def writeTokenToFile_ok Let_def)

lemma addTokens_effect:
  "addTokens ToLower l0 reqs = Some l \<Longrightarrow>
     fileContent (tokenFile l) = fileContent (tokenFile l0)
        @ concat (map (\<lambda>(k, t). (k @ [TAB] @ t) @ [NL]) (map (entryOf ToLower) reqs))
     \<and> tokens l = fold putEntry (map (entryOf ToLower) reqs) (tokens l0)
     \<and> distinct (map fst (map (entryOf ToLower) reqs))
     \<and> (\<forall>k\<in>set (map fst (map (entryOf ToLower) reqs)). tokens l0 k = None)"
proof (induction reqs arbitrary: l0)
  case Nil
  then show ?case by simp
next
  case (Cons r reqs)
  obtain service "instance" digest where r: "r = (service, instance, digest)"
    by (cases r) auto
  define key where "key = getCleanKey ToLower service instance"
  define l1 where "l1 = l0\<lparr>tokenFile := Some (fileContent (tokenFile l0) @ key @ [TAB] @ hex digest @ [NL]),
              tokens := (tokens l0)(key \<mapsto> hex digest),
              stats := (stats l0)(key \<mapsto> \<lparr>Service = service, Instance = instance\<rparr>)\<rparr>"
  have e: "entryOf ToLower r = (key, hex digest)"
    by (simp add: entryOf_def r key_def)
  from Cons.prems r have absent: "tokens l0 key = None" and rest: "addTokens ToLower l1 reqs = Some l"
    by (auto simp add: AddToken_NoFault key_def l1_def split: if_splits)
  from Cons.IH [OF rest] have
    f: "fileContent (tokenFile l) = fileContent (tokenFile l1)
        @ concat (map (\<lambda>(k, t). (k @ [TAB] @ t) @ [NL]) (map (entryOf ToLower) reqs))"
    and t: "tokens l = fold putEntry (map (entryOf ToLower) reqs) (tokens l1)"
    and d: "distinct (map fst (map (entryOf ToLower) reqs))"
    and n: "\<forall>k\<in>set (map fst (map (entryOf ToLower) reqs)). tokens l1 k = None"
    by blast+
  have l1f: "fileContent (tokenFile l1) = fileContent (tokenFile l0) @ (key @ [TAB] @ hex digest) @ [NL]"
    and l1t: "tokens l1 = (tokens l0)(key \<mapsto> hex digest)"
    by (simp_all add: l1_def fileContent_def)
  from n l1t have notin: "key \<notin> set (map fst (map (entryOf ToLower) reqs))"
    and n0: "\<forall>k\<in>set (map fst (map (entryOf ToLower) reqs)). tokens l0 k = None"
    by (auto split: if_splits)
  from f l1f have 1: "fileContent (tokenFile l) = fileContent (tokenFile l0)
        @ concat (map (\<lambda>(k, t). (k @ [TAB] @ t) @ [NL]) (map (entryOf ToLower) (r # reqs)))"
    by (simp add: e)
  from t l1t have 2: "tokens l = fold putEntry (map (entryOf ToLower) (r # reqs)) (tokens l0)"
    by (simp add: e putEntry_pair)
  from d notin have 3: "distinct (map fst (map (entryOf ToLower) (r # reqs)))"
    by (simp add: e)
  from n0 absent have 4: "\<forall>k\<in>set (map fst (map (entryOf ToLower) (r # reqs))). tokens l0 k = None"
    by (simp add: e)
  from 1 2 3 4 show ?case by blast
qed

lemma Split_line: "TAB \<notin> set k \<Longrightarrow> TAB \<notin> set t \<Longrightarrow> Split (k @ TAB # t) TAB = [k, t]"
  by (simp add: Split_append Split_no_sep)

lemma loadLines_entries:
  "\<forall>(k, t)\<in>set kts. TAB \<notin> set k \<and> TAB \<notin> set t \<and> length (Split k (CHR ''/'')) = 2 \<Longrightarrow>
     loadLines (map (\<lambda>(k, t). k @ [TAB] @ t) kts) m = fold putEntry kts m"
proof (induction kts arbitrary: m)
  case Nil
  then show ?case by simp
next
  case (Cons kt kts)
  obtain k t where kt: "kt = (k, t)" by (cases kt) auto
  with Cons.prems have "Split (k @ TAB # t) TAB = [k, t]" and "length (Split k (CHR ''/'')) = 2"
    by (simp_all add: Split_line)
  with Cons kt show ?case by (simp add: Let_def putEntry_pair)
qed

lemma dom_fold_upd:
  "dom (fold putEntry kts m) = dom m \<union> set (map fst kts)"
  by (induction kts arbitrary: m) (auto simp add: putEntry_pair)

lemma fold_upd_other:
  "k \<notin> fst ` set kts \<Longrightarrow> fold putEntry kts m k = m k"
  by (induction kts arbitrary: m) (auto simp add: putEntry_pair)

lemma fold_upd_lookup:
  "distinct (map fst kts) \<Longrightarrow> (k, t) \<in> set kts \<Longrightarrow>
     fold putEntry kts m k = Some t"
proof (induction kts arbitrary: m)
  case Nil
  then show ?case by simp
next
  case (Cons kt kts)
  obtain k' t' where kt: "kt = (k', t')" by (cases kt) auto
  show ?case
  proof (cases "(k, t) \<in> set kts")
    case True
    with Cons kt show ?thesis by simp
  next
    case False
    with Cons.prems kt have eq: "k' = k" "t' = t" and nk: "k \<notin> fst ` set kts" by auto
    from nk have "fold putEntry kts (putEntry (k, t) m) k = putEntry (k, t) m k"
      by (rule fold_upd_other)
    with kt eq show ?thesis by (simp add: putEntry_pair)
  qed
qed


lemma loadTokensFromDisk_NoFault:
  "loadTokensFromDisk l NoFault =
     (None, l\<lparr>tokenFile := Some (fileContent (tokenFile l)),
              tokens := loadLines (scanLines (fileContent (tokenFile l))) (tokens l)\<rparr>)"
  by (simp add: loadTokensFromDisk_def fileExists_def fileContent_def Let_def)

text \<open>
  C6 (as amended). Start from a new server whose token file is absent or empty and let
  \<open>N\<close> calls of \<open>AddToken\<close> succeed, each for a key that is free of tabs and newlines,
  splits into two parts at \<open>/\<close> and fits into a line of the scanner, each with a
  digest of 32 bytes. Then \<open>loadTokensFromDisk\<close> on a new server with the file that the
  calls left returns no error, and its tokens are those of the first server: each
  request's key with the token returned for it, \<open>N\<close> entries in all.
\<close>

theorem reload_round_trip:
  assumes fresh: "fileContent file = []"
    and adds: "addTokens ToLower (newServer file) reqs = Some l"
    and ok: "\<forall>(service, instance, digest)\<in>set reqs.
               storableKey (getCleanKey ToLower service instance) \<and> length digest = 32"
  shows "\<exists>l'. loadTokensFromDisk (newServer (tokenFile l)) NoFault = (None, l')
           \<and> GetTokens l' = GetTokens l
           \<and> (\<forall>(service, instance, digest)\<in>set reqs.
                 GetTokens l' (getCleanKey ToLower service instance) = Some (hex digest))
           \<and> card (dom (GetTokens l')) = length reqs"
proof -
  define entries where "entries = map (entryOf ToLower) reqs"
  define lines where "lines = map (\<lambda>(k, t). k @ [TAB] @ t) entries"
  from addTokens_effect [OF adds] fresh
  have content: "fileContent (tokenFile l) = concat (map (\<lambda>(k, t). (k @ [TAB] @ t) @ [NL]) entries)"
    and toks: "tokens l = fold putEntry entries Map.empty"
    and dist: "distinct (map fst entries)"
    by (simp_all add: entries_def newServer_def)
  have "map (\<lambda>(k, t). (k @ [TAB] @ t) @ [NL]) entries = map (\<lambda>x. x @ [NL]) lines"
    by (simp add: lines_def case_prod_unfold)
  with content have content': "fileContent (tokenFile l) = concat (map (\<lambda>x. x @ [NL]) lines)"
    by simp
  have entry: "TAB \<notin> set k \<and> NL \<notin> set k \<and> length (Split k (CHR ''/'')) = 2
      \<and> length k + 65 < MaxScanTokenSize \<and> length t = 64
      \<and> TAB \<notin> set t \<and> NL \<notin> set t \<and> CR \<notin> set t"
    if "(k, t) \<in> set entries" for k t
  proof -
    from that obtain service "instance" digest where
      r: "(service, instance, digest) \<in> set reqs"
      and k: "k = getCleanKey ToLower service instance" and t: "t = hex digest"
      by (auto simp add: entries_def entryOf_def)
    from ok r have "storableKey (getCleanKey ToLower service instance)" and "length digest = 32"
      by auto
    with k t show ?thesis
      by (simp add: storableKey_def hex_no_control length_hex)
  qed
  have line_ok: "NL \<notin> set x \<and> length x < MaxScanTokenSize \<and> dropCR x = x" if "x \<in> set lines" for x
  proof -
    from that obtain k t where kt: "(k, t) \<in> set entries" and x: "x = k @ [TAB] @ t"
      by (auto simp add: lines_def)
    from entry [OF kt] x show ?thesis
      using dropCR_line [of t k] by (simp add: NL_def TAB_def)
  qed
  then have "scanLines (concat (map (\<lambda>x. x @ [NL]) lines)) = map dropCR lines"
    by (simp add: scanLines_concat)
  moreover from line_ok have "map dropCR lines = lines"
    by (simp add: map_idI)
  ultimately have scan: "scanLines (fileContent (tokenFile l)) = lines"
    by (simp add: content')
  have "\<forall>(k, t)\<in>set entries. TAB \<notin> set k \<and> TAB \<notin> set t \<and> length (Split k (CHR ''/'')) = 2"
    using entry by auto
  then have load: "loadLines lines Map.empty = fold putEntry entries Map.empty"
    unfolding lines_def by (rule loadLines_entries)
  define l' where "l' = (newServer (tokenFile l))\<lparr>tokenFile := Some (fileContent (tokenFile l)),
                          tokens := tokens l\<rparr>"
  have 1: "loadTokensFromDisk (newServer (tokenFile l)) NoFault = (None, l')"
    by (simp add: loadTokensFromDisk_NoFault l'_def newServer_def scan load toks)
  have 2: "GetTokens l' = GetTokens l"
    by (simp add: GetTokens_def l'_def)
  have 3: "\<forall>(service, instance, digest)\<in>set reqs.
                 GetTokens l' (getCleanKey ToLower service instance) = Some (hex digest)"
  proof (intro ballI, clarify)
    fix service "instance" digest
    assume "(service, instance, digest) \<in> set reqs"
    then have "(getCleanKey ToLower service instance, hex digest) \<in> set entries"
      by (force simp add: entries_def entryOf_def)
    from fold_upd_lookup [OF dist this]
    show "GetTokens l' (getCleanKey ToLower service instance) = Some (hex digest)"
      by (simp add: GetTokens_def l'_def toks)
  qed
  have "dom (GetTokens l') = set (map fst entries)"
    by (simp add: GetTokens_def l'_def toks dom_fold_upd)
  moreover from dist have "card (set (map fst entries)) = length (map fst entries)"
    by (rule distinct_card)
  ultimately have 4: "card (dom (GetTokens l')) = length reqs"
    by (simp add: entries_def)
  from 1 2 3 4 show ?thesis by blast
qed


theorem reload_round_trip_witness:
  "\<exists>l l'. addTokens asciiLower (newServer None)
              [(''Billing'', ''prod-1'', ''0123456789abcdef0123456789abcdef''),
               (''billing'', ''Prod-2'', ''fedcba9876543210fedcba9876543210'')] = Some l
     \<and> loadTokensFromDisk (newServer (tokenFile l)) NoFault = (None, l')
     \<and> GetTokens l' = GetTokens l
     \<and> card (dom (GetTokens l')) = 2"
proof -
  let ?reqs = "[(''Billing'', ''prod-1'', ''0123456789abcdef0123456789abcdef''),
               (''billing'', ''Prod-2'', ''fedcba9876543210fedcba9876543210'')]"
  have "addTokens asciiLower (newServer None) ?reqs \<noteq> None"
    by (simp add: AddToken_NoFault getCleanKey_def asciiLower_def asciiLowerChar_def newServer_def)
  then obtain l where adds: "addTokens asciiLower (newServer None) ?reqs = Some l"
    by blast
  have fresh: "fileContent None = []"
    by (simp add: fileContent_def)
  have ok: "\<forall>(service, instance, digest)\<in>set ?reqs.
               storableKey (getCleanKey asciiLower service instance) \<and> length digest = 32"
    by (simp add: storableKey_def getCleanKey_def asciiLower_def asciiLowerChar_def
          MaxScanTokenSize_def TAB_def NL_def)
  from reload_round_trip [OF fresh adds ok] adds show ?thesis
    by auto
qed

text \<open>
  The claim as the spec has it, for every run of successful calls, fails: \<open>AddToken\<close>
  accepts an instance name with a \<open>/\<close> in it, and the loader skips the line it wrote.
\<close>

theorem reload_loses_key_counterexample:
  "fst (AddToken asciiLower (newServer None) ''a'' ''b/c''
          (Inr ''0123456789abcdef0123456789abcdef'') NoFault)
     = Inr (hex ''0123456789abcdef0123456789abcdef'')
   \<and> GetTokens (snd (AddToken asciiLower (newServer None) ''a'' ''b/c''
          (Inr ''0123456789abcdef0123456789abcdef'') NoFault)) ''a/b/c''
     = Some (hex ''0123456789abcdef0123456789abcdef'')
   \<and> fst (loadTokensFromDisk (newServer (tokenFile (snd (AddToken asciiLower (newServer None)
          ''a'' ''b/c'' (Inr ''0123456789abcdef0123456789abcdef'') NoFault)))) NoFault) = None
   \<and> GetTokens (snd (loadTokensFromDisk (newServer (tokenFile (snd (AddToken asciiLower
          (newServer None) ''a'' ''b/c'' (Inr ''0123456789abcdef0123456789abcdef'') NoFault))))
          NoFault)) ''a/b/c'' = None"
  by (simp add: AddToken_NoFault loadTokensFromDisk_NoFault getCleanKey_def asciiLower_def
        asciiLowerChar_def newServer_def GetTokens_def fileContent_def hex_def hexdigit_def
        scanLines_def rawLines_def dropCR_def MaxScanTokenSize_def TAB_def NL_def CR_def)


section \<open>Removing the tokens of a service\<close>

text \<open>
  When every key of the store is the clean key of its own two parts and the file system
  does not fail, \<open>RemoveTokens\<close> removes from memory the keys whose first part is the
  service as given, and no other key.
\<close>

lemma RemoveToken_NoFault:
  "tokens l (getCleanKey ToLower service instance) \<noteq> None \<Longrightarrow>
     RemoveToken ToLower l service instance NoFault =
       (None, l\<lparr>tokenFile := Some (Join (keptLines (getCleanKey ToLower service instance)
                                  (scanLines (fileContent (tokenFile l))) @ [[NL]]) [NL]),
                 tokens := (tokens l)(getCleanKey ToLower service instance := None)\<rparr>)"
  by (simp add: RemoveToken_def removeTokenFromFile_NoFault Let_def)

lemma removeKeys_clean:
  assumes "distinct keys"
    and "\<forall>key\<in>set keys. tokens l key \<noteq> None \<and> 2 \<le> length (Split key (CHR ''/''))
           \<and> getCleanKey ToLower (Split key (CHR ''/'') ! 0) (Split key (CHR ''/'') ! 1) = key"
  shows "\<exists>l'. removeKeys ToLower l keys (\<lambda>key. NoFault) = (Inr None, l')
           \<and> tokens l' = (\<lambda>key. if key \<in> set keys then None else tokens l key)
           \<and> stats l' = stats l"
  using assms
proof (induction keys arbitrary: l)
  case Nil
  then show ?case by simp
next
  case (Cons key keys)
  let ?p = "Split key (CHR ''/'')"
  from Cons.prems have present: "tokens l key \<noteq> None" and len: "\<not> length ?p < 2"
    and clean: "getCleanKey ToLower (?p ! 0) (?p ! 1) = key"
    by auto
  define f where "f = Some (Join (keptLines key (scanLines (fileContent (tokenFile l))) @ [[NL]]) [NL])"
  from RemoveToken_NoFault [of l ToLower "?p ! 0" "?p ! 1"] present clean
  have rt: "RemoveToken ToLower l (?p ! 0) (?p ! 1) NoFault =
       (None, l\<lparr>tokenFile := f, tokens := (tokens l)(key := None)\<rparr>)"
    by (simp add: f_def)
  define l1 where "l1 = l\<lparr>tokenFile := f, tokens := (tokens l)(key := None)\<rparr>"
  from Cons.prems have "distinct keys"
    and "\<forall>k\<in>set keys. tokens l1 k \<noteq> None \<and> 2 \<le> length (Split k (CHR ''/''))
           \<and> getCleanKey ToLower (Split k (CHR ''/'') ! 0) (Split k (CHR ''/'') ! 1) = k"
    by (auto simp add: l1_def)
  from Cons.IH [OF this] obtain l' where
    r: "removeKeys ToLower l1 keys (\<lambda>key. NoFault) = (Inr None, l')"
    and t: "tokens l' = (\<lambda>k. if k \<in> set keys then None else tokens l1 k)"
    and s: "stats l' = stats l1"
    by blast
  from r rt len have "removeKeys ToLower l (key # keys) (\<lambda>key. NoFault) = (Inr None, l')"
    by (simp add: l1_def Let_def)
  moreover from t have "tokens l' = (\<lambda>k. if k \<in> set (key # keys) then None else tokens l k)"
    by (auto simp add: l1_def)
  moreover from s have "stats l' = stats l"
    by (simp add: l1_def)
  ultimately show ?case by blast
qed

lemma RemoveTokens_folded_service:
  assumes "distinct order" and "set order = dom (tokens l)"
    and "\<forall>key\<in>dom (tokens l). 2 \<le> length (Split key (CHR ''/''))
           \<and> getCleanKey ToLower (Split key (CHR ''/'') ! 0) (Split key (CHR ''/'') ! 1) = key"
  shows "\<exists>l'. RemoveTokens ToLower l service order (\<lambda>key. NoFault) = (Inr None, l')
           \<and> tokens l' = (\<lambda>key. if Split key (CHR ''/'') ! 0 = service then None else tokens l key)"
proof -
  let ?keys = "filter (\<lambda>key. Split key (CHR ''/'') ! 0 = service) order"
  from assms have "distinct ?keys"
    and "\<forall>key\<in>set ?keys. tokens l key \<noteq> None \<and> 2 \<le> length (Split key (CHR ''/''))
           \<and> getCleanKey ToLower (Split key (CHR ''/'') ! 0) (Split key (CHR ''/'') ! 1) = key"
    by auto
  from removeKeys_clean [OF this] obtain l' where
    r: "removeKeys ToLower l ?keys (\<lambda>key. NoFault) = (Inr None, l')"
    and t: "tokens l' = (\<lambda>key. if key \<in> set ?keys then None else tokens l key)"
    by blast
  from t assms(2) have "tokens l' = (\<lambda>key. if Split key (CHR ''/'') ! 0 = service then None else tokens l key)"
    by (auto simp add: fun_eq_iff domIff)
  with r show ?thesis by (simp add: RemoveTokens_def)
qed


text \<open>
  C5. \<open>RemoveTokens\<close> compares the first part of each key with the service name as it
  is given, without folding its case. On a store that holds \<open>svc/a\<close> and \<open>other/x\<close>,
  \<open>RemoveTokens\<close> for \<open>SVC\<close> returns no error and removes nothing, neither from
  memory nor from the file, while \<open>RemoveToken\<close> for \<open>SVC\<close> and \<open>A\<close> folds the
  case and removes \<open>svc/a\<close>.
\<close>

theorem RemoveTokens_upper_case:
  "RemoveTokens asciiLower
     \<lparr>tokens = [''svc/a'' \<mapsto> ''t1'', ''other/x'' \<mapsto> ''t2''], stats = Map.empty,
      tokenFile = Some (''svc/a'' @ [TAB] @ ''t1'' @ [NL] @ ''other/x'' @ [TAB] @ ''t2'' @ [NL])\<rparr>
     ''SVC'' [''svc/a'', ''other/x''] (\<lambda>key. NoFault)
   = (Inr None,
      \<lparr>tokens = [''svc/a'' \<mapsto> ''t1'', ''other/x'' \<mapsto> ''t2''], stats = Map.empty,
       tokenFile = Some (''svc/a'' @ [TAB] @ ''t1'' @ [NL] @ ''other/x'' @ [TAB] @ ''t2'' @ [NL])\<rparr>)
   \<and> RemoveToken asciiLower
     \<lparr>tokens = [''svc/a'' \<mapsto> ''t1'', ''other/x'' \<mapsto> ''t2''], stats = Map.empty,
      tokenFile = Some (''svc/a'' @ [TAB] @ ''t1'' @ [NL] @ ''other/x'' @ [TAB] @ ''t2'' @ [NL])\<rparr>
     ''SVC'' ''A'' NoFault
   = (None,
      \<lparr>tokens = [''other/x'' \<mapsto> ''t2''], stats = Map.empty,
       tokenFile = Some (''other/x'' @ [TAB] @ ''t2'' @ [NL, NL])\<rparr>)"
  by (simp add: RemoveTokens_def RemoveToken_def removeTokenFromFile_def fileExists_def
        fileContent_def getCleanKey_def asciiLower_def asciiLowerChar_def Let_def
        scanLines_def rawLines_def dropCR_def MaxScanTokenSize_def TAB_def NL_def CR_def
        fun_upd_twist)

section \<open>The console commands\<close>

text \<open>
  \<open>CmdTokensAdd\<close> on a bag without nil values: with two strings it is \<open>AddToken\<close>
  and the rendering of its result; with an argument that is absent or of another kind
  it is the response for missing parameters, and the store stays as it is.
\<close>

lemma CmdTokensAdd_strings:
  "args ''service'' = Some (StringVal s) \<Longrightarrow> args ''instance'' = Some (StringVal i) \<Longrightarrow>
     CmdTokensAdd ToLower l args rnd flt =
       (case AddToken ToLower l s i rnd flt of
          (Inl err, l') \<Rightarrow>
            (Inr \<lparr>Status = ''failure'', Payload = None, Error = ''Could not add token: '' @ err\<rparr>, l')
        | (Inr token, l') \<Rightarrow>
            (Inr \<lparr>Status = ''success'',
                  Payload = Some \<lparr>Header = [''Service'', ''Instance'', ''Token''],
                                  Title = ''Token created for '' @ s @ ''/'' @ i,
                                  Rows = [[s, i, token]]\<rparr>,
                  Error = []\<rparr>, l'))"
  by (simp add: CmdTokensAdd_def kindOf_def assertString_def)

lemma CmdTokensAdd_invalid:
  assumes "args ''service'' \<noteq> Some NilVal" and "args ''instance'' \<noteq> Some NilVal"
    and "(\<forall>x. args ''service'' = Some x \<longrightarrow> kindOf x \<noteq> Inr String)
         \<or> (\<forall>x. args ''instance'' = Some x \<longrightarrow> kindOf x \<noteq> Inr String)"
  shows "CmdTokensAdd ToLower l args rnd flt = (Inr respMissingArgs, l)"
proof -
  have "validArguments args [\<lparr>Name = ''service'', Kind = String\<rparr>,
                             \<lparr>Name = ''instance'', Kind = String\<rparr>] = Inr False"
    using assms by (auto simp add: kindOf_def split: option.splits iface.splits)
  then show ?thesis by (simp add: CmdTokensAdd_def)
qed


text \<open>
  C8. \<open>Execute\<close> of \<open>tokens.add\<close> on an argument bag whose \<open>service\<close> is the nil
  interface does not return the response for missing or invalid parameters: the call of
  \<open>Kind\<close> on the nil type in \<open>validArguments\<close> panics. The store is not touched.
\<close>

theorem Execute_tokens_add_nil:
  "Execute asciiLower l ''tokens.add'' [''service'' \<mapsto> NilVal, ''instance'' \<mapsto> StringVal ''a'']
     rnd flt order now = (Inl NilDereference, l)"
  by (simp add: Execute_def CmdTokensAdd_def kindOf_def asciiLower_def asciiLowerChar_def)

lemma instanceRows_eq:
  "instanceRows toks service order =
     (if \<exists>key\<in>set order. \<exists>token. toks key = Some token
           \<and> length (Split key (CHR ''/'')) = 2 \<and> Split key (CHR ''/'') ! 0 = service
           \<and> length token < 10
      then Inl SliceOutOfRange
      else Inr (map (\<lambda>key. [Split key (CHR ''/'') ! 1, take 10 (the (toks key)) @ ''...'',
                            ''???'', ''???''])
             (filter (\<lambda>key. toks key \<noteq> None \<and> length (Split key (CHR ''/'')) = 2
                            \<and> Split key (CHR ''/'') ! 0 = service) order)))"
  by (induction order) (auto simp add: Let_def split: option.splits sum.splits)


text \<open>
  C9. With a \<open>service\<close> argument that is a string and the tokens visited in any order,
  \<open>CmdTokensListInstances\<close> panics on the slice \<open>token[0:10]\<close> exactly when the store
  holds, under a key of two parts whose first part is the lower-cased service, a token
  of less than 10 bytes. When every such token has 10 bytes or more, the command
  succeeds and each row shows the first 10 bytes of the token followed by three dots.
\<close>

theorem CmdTokensListInstances_slice:
  assumes "args ''service'' = Some (StringVal s)" and "set order = dom (tokens l)"
  shows "(CmdTokensListInstances ToLower l args order = Inl SliceOutOfRange
          \<longleftrightarrow> (\<exists>key token. tokens l key = Some token
                 \<and> length (Split key (CHR ''/'')) = 2 \<and> Split key (CHR ''/'') ! 0 = ToLower s
                 \<and> length token < 10))
         \<and> ((\<forall>key token. tokens l key = Some token
                 \<and> length (Split key (CHR ''/'')) = 2 \<and> Split key (CHR ''/'') ! 0 = ToLower s
                 \<longrightarrow> 10 \<le> length token)
            \<longrightarrow> CmdTokensListInstances ToLower l args order =
                  Inr \<lparr>Status = ''success'',
                       Payload = Some
                         \<lparr>Header = [''Instance'', ''Token'', ''Last IP'', ''Logs parsed''],
                          Title = ''Service '' @ ToLower s @ '': permited instances'',
                          Rows = map (\<lambda>key. [Split key (CHR ''/'') ! 1,
                                               take 10 (the (tokens l key)) @ ''...'',
                                               ''???'', ''???''])
                                   (filter (\<lambda>key. length (Split key (CHR ''/'')) = 2
                                              \<and> Split key (CHR ''/'') ! 0 = ToLower s) order)\<rparr>,
                       Error = []\<rparr>)"
proof -
  let ?short = "\<exists>key token. tokens l key = Some token
                 \<and> length (Split key (CHR ''/'')) = 2 \<and> Split key (CHR ''/'') ! 0 = ToLower s
                 \<and> length token < 10"
  have cmd: "CmdTokensListInstances ToLower l args order =
      (case instanceRows (tokens l) (ToLower s) order of
         Inl p \<Rightarrow> Inl p
       | Inr rows \<Rightarrow>
           Inr \<lparr>Status = ''success'',
                Payload = Some
                  \<lparr>Header = [''Instance'', ''Token'', ''Last IP'', ''Logs parsed''],
                   Title = ''Service '' @ ToLower s @ '': permited instances'',
                   Rows = rows\<rparr>,
                Error = []\<rparr>)"
    using assms(1) by (simp add: CmdTokensListInstances_def kindOf_def assertString_def Let_def)
  have short: "(\<exists>key\<in>set order. \<exists>token. tokens l key = Some token
           \<and> length (Split key (CHR ''/'')) = 2 \<and> Split key (CHR ''/'') ! 0 = ToLower s
           \<and> length token < 10) \<longleftrightarrow> ?short"
    using assms(2) by auto
  have filt: "filter (\<lambda>key. tokens l key \<noteq> None \<and> length (Split key (CHR ''/'')) = 2
                            \<and> Split key (CHR ''/'') ! 0 = ToLower s) order
      = filter (\<lambda>key. length (Split key (CHR ''/'')) = 2
                            \<and> Split key (CHR ''/'') ! 0 = ToLower s) order"
    using assms(2) by (intro filter_cong) auto
  have rows: "instanceRows (tokens l) (ToLower s) order =
     (if ?short then Inl SliceOutOfRange
      else Inr (map (\<lambda>key. [Split key (CHR ''/'') ! 1, take 10 (the (tokens l key)) @ ''...'',
                            ''???'', ''???''])
             (filter (\<lambda>key. length (Split key (CHR ''/'')) = 2
                            \<and> Split key (CHR ''/'') ! 0 = ToLower s) order)))"
    unfolding instanceRows_eq short filt ..
  show ?thesis
  proof (cases ?short)
    case True
    then have "\<not> (\<forall>key token. tokens l key = Some token
                 \<and> length (Split key (CHR ''/'')) = 2 \<and> Split key (CHR ''/'') ! 0 = ToLower s
                 \<longrightarrow> 10 \<le> length token)"
      by (metis not_less)
    with True show ?thesis
      unfolding cmd rows by simp
  next
    case False
    then show ?thesis
      unfolding cmd rows by auto
  qed
qed

theorem CmdTokensListInstances_slice_witness:
  "tokens (snd (loadTokensFromDisk (newServer (Some (''svc/a'' @ [TAB] @ ''abc'' @ [NL]))) NoFault))
     = [''svc/a'' \<mapsto> ''abc'']
   \<and> CmdTokensListInstances asciiLower
       (snd (loadTokensFromDisk (newServer (Some (''svc/a'' @ [TAB] @ ''abc'' @ [NL]))) NoFault))
       [''service'' \<mapsto> StringVal ''Svc''] [''svc/a''] = Inl SliceOutOfRange
   \<and> CmdTokensListInstances asciiLower
       ((newServer None)\<lparr>tokens := [''svc/a'' \<mapsto> ''0123456789abcdef'']\<rparr>)
       [''service'' \<mapsto> StringVal ''Svc''] [''svc/a'']
      = Inr \<lparr>Status = ''success'',
             Payload = Some \<lparr>Header = [''Instance'', ''Token'', ''Last IP'', ''Logs parsed''],
                             Title = ''Service svc: permited instances'',
                             Rows = [[''a'', ''0123456789...'', ''???'', ''???'']]\<rparr>,
             Error = []\<rparr>"
proof -
  let ?l = "snd (loadTokensFromDisk (newServer (Some (''svc/a'' @ [TAB] @ ''abc'' @ [NL]))) NoFault)"
  let ?l2 = "(newServer None)\<lparr>tokens := [''svc/a'' \<mapsto> ''0123456789abcdef'']\<rparr>"
  let ?bag = "[''service'' \<mapsto> StringVal ''Svc'']"
  have t: "tokens ?l = [''svc/a'' \<mapsto> ''abc'']"
    by (simp add: loadTokensFromDisk_NoFault newServer_def fileContent_def scanLines_def
          rawLines_def dropCR_def MaxScanTokenSize_def TAB_def NL_def CR_def)
  have a: "?bag ''service'' = Some (StringVal ''Svc'')"
    by simp
  have o: "set [''svc/a''] = dom (tokens ?l)"
    unfolding t by simp
  have o2: "set [''svc/a''] = dom (tokens ?l2)"
    by simp
  from CmdTokensListInstances_slice [where args = ?bag and s = "''Svc''" and order = "[''svc/a'']"
      and l = ?l and ToLower = asciiLower, OF a o, THEN conjunct1]
  have 1: "CmdTokensListInstances asciiLower ?l ?bag [''svc/a''] = Inl SliceOutOfRange"
    unfolding t by (simp add: asciiLower_def asciiLowerChar_def)
  from CmdTokensListInstances_slice [where args = ?bag and s = "''Svc''" and order = "[''svc/a'']"
      and l = ?l2 and ToLower = asciiLower, OF a o2, THEN conjunct2]
  have 2: "CmdTokensListInstances asciiLower ?l2 ?bag [''svc/a'']
      = Inr \<lparr>Status = ''success'',
             Payload = Some \<lparr>Header = [''Instance'', ''Token'', ''Last IP'', ''Logs parsed''],
                             Title = ''Service svc: permited instances'',
                             Rows = [[''a'', ''0123456789...'', ''???'', ''???'']]\<rparr>,
             Error = []\<rparr>"
    by (simp add: asciiLower_def asciiLowerChar_def)
  from t 1 2 show ?thesis by (intro conjI)
qed


end
